theory Spec2Isabelle
  imports Main "HOL-Library.Word"
begin

unbundle bit_operations_syntax

section \<open>The robot header byte of main.c\<close>

text \<open>
  The program reads one byte as four bit-fields: the most significant bit is the gender,
  the next two bits the version, the next bit the active flag, and the low four bits a
  row index into a table of gigahertz values. \<^verbatim>\<open>unsigned char\<close> is an 8-bit word;
  \<^verbatim>\<open>int\<close> is a 32-bit word, read as two's complement by \<open>sint\<close>.
\<close>

type_synonym uchar = "8 word"
type_synonym c_int = "32 word"

text \<open>\<^verbatim>\<open>struct RobotHeader { int gender; int version; int active; int gigahertz; }\<close>\<close>

record RobotHeader =
  gender :: c_int
  version :: c_int
  active :: c_int
  gigahertz :: c_int

text \<open>
  \<^verbatim>\<open>parseByte\<close>: the positional initialiser
  \<^verbatim>\<open>{ byte >> 7, byte >> 5 & 0b00000011, byte >> 4 & 0b00000001, byte & 0b00001111 }\<close>.
  The operand \<^verbatim>\<open>byte\<close> is promoted to \<^verbatim>\<open>int\<close> first (\<open>ucast\<close>: zero extension of an
  unsigned char); \<^verbatim>\<open>>>\<close> binds tighter than \<^verbatim>\<open>&\<close>. The promoted value is never negative,
  so \<^verbatim>\<open>>>\<close> is the logical shift \<open>drop_bit\<close>.
\<close>

definition parseByte :: "uchar \<Rightarrow> RobotHeader" where
  "parseByte byte =
     \<lparr> gender = drop_bit 7 (ucast byte),
       version = drop_bit 5 (ucast byte) AND 3,
       active = drop_bit 4 (ucast byte) AND 1,
       gigahertz = ucast byte AND 15 \<rparr>"

text \<open>
  \<^verbatim>\<open>getRobotGender\<close>. The mask is a plain \<^verbatim>\<open>char\<close> initialised with 0x80; whether
  plain char is signed is left to the platform, so it is the parameter \<open>char_signed\<close>.
  A signed char cannot hold 128 and keeps its low eight bits, the pattern 0x80, which is
  \<open>-128\<close>. Promoted to \<^verbatim>\<open>int\<close>, the mask is \<open>-128\<close> when char is signed (\<open>scast\<close>) and
  \<open>128\<close> when it is not (\<open>ucast\<close>). \<^verbatim>\<open>byte & mask\<close> is computed on ints and stored back into the
  unsigned char \<^verbatim>\<open>res\<close>. The two \<^verbatim>\<open>printf\<close> calls write diagnostics to standard output and
  do not touch \<^verbatim>\<open>res\<close>; the model is of the returned value.
\<close>

definition getRobotGender :: "bool \<Rightarrow> uchar \<Rightarrow> c_int" where
  "getRobotGender char_signed byte =
     (let mask = (0x80 :: 8 word);
          mask_int = (if char_signed then scast mask else ucast mask) :: c_int;
          res = (ucast (ucast byte AND mask_int) :: uchar)
      in if res = 0 then 0 else 1)"

text \<open>
  \<^verbatim>\<open>main\<close> decodes the three bytes of \<^verbatim>\<open>char bytes[] = {0xFF, 0x92, 0x18}\<close> and asserts
  each field. Passing a char to the \<^verbatim>\<open>unsigned char\<close> parameter (or storing it in the
  \<^verbatim>\<open>uint8_t firstByte\<close>) keeps its eight bits, whatever the signedness of char. The
  program runs to its end exactly when all twelve assertions hold.
\<close>

definition main_asserts :: bool where
  "main_asserts =
     (let hdr1 = parseByte 0xFF; hdr2 = parseByte 0x92; hdr3 = parseByte 0x18
      in gender hdr1 = 1 \<and> version hdr1 = 3 \<and> active hdr1 = 1 \<and> gigahertz hdr1 = 15
       \<and> gender hdr2 = 1 \<and> version hdr2 = 0 \<and> active hdr2 = 1 \<and> gigahertz hdr2 = 2
       \<and> gender hdr3 = 0 \<and> version hdr3 = 0 \<and> active hdr3 = 1 \<and> gigahertz hdr3 = 8)"

section \<open>The gigahertz table and the encoder of the specification\<close>

text \<open>
  The table of the header comment of main.c: one row for each 4-bit pattern 0000 to 1111,
  one column for each version 1 to 4. The program declares no such array and never reads
  one; the rows below are the comment's, in its order.
\<close>

definition lookupTable :: "int list list" where
  "lookupTable =
     [ [0, 0, 0, 100],
       [0, 0, 100, 200],
       [0, 100, 150, 250],
       [0, 125, 175, 340],
       [5, 125, 180, 365],
       [10, 150, 200, 365],
       [10, 150, 375, 375],
       [10, 150, 400, 400],
       [15, 150, 450, 1000],
       [15, 150, 450, 1150],
       [15, 150, 500, 1250],
       [20, 155, 550, 5000],
       [100, 200, 1560, 9800],
       [150, 250, 2000, 12100],
       [230, 330, 6000, 23500],
       [300, 500, 18000, 235550] ]"

datatype error = InvalidArgument

text \<open>
  Modelled from the spec: the query \<^verbatim>\<open>LookupTable.resolve(version, code)\<close>, which main.c
  does not have. Section 4.1: it returns the tabulated value for a version in 1..4 and a
  code in 0..15 and fails with InvalidArgument for any other argument.
\<close>

definition resolve :: "int \<Rightarrow> int \<Rightarrow> error + int" where
  "resolve ver code =
     (if 1 \<le> ver \<and> ver \<le> 4 \<and> 0 \<le> code \<and> code \<le> 15
      then Inr (lookupTable ! nat code ! nat (ver - 1))
      else Inl InvalidArgument)"

text \<open>
  Modelled from the spec: the operation \<^verbatim>\<open>encode\<close>, which main.c does not have.
  Section 4.2: the byte is \<^verbatim>\<open>(gender << 7) | ((version-1) << 5) | (active << 4) | code4\<close>,
  and the operation fails with InvalidArgument unless version is in 1..4, code4 in 0..15,
  gender in {0,1} and active in {0,1}. It is taken over the program's own record, the
  field \<open>gigahertz\<close> holding the 4-bit code; the result is narrowed to eight bits.
\<close>

definition encode :: "RobotHeader \<Rightarrow> error + uchar" where
  "encode r =
     (if 1 \<le> sint (version r) \<and> sint (version r) \<le> 4
         \<and> 0 \<le> sint (gigahertz r) \<and> sint (gigahertz r) \<le> 15
         \<and> (sint (gender r) = 0 \<or> sint (gender r) = 1)
         \<and> (sint (active r) = 0 \<or> sint (active r) = 1)
      then Inr (ucast (push_bit 7 (gender r) OR push_bit 5 (version r - 1)
                       OR push_bit 4 (active r) OR gigahertz r))
      else Inl InvalidArgument)"

section \<open>Words and their values\<close>

lemma three_mask: "(3 :: 'a::len word) = mask 2"
  and one_mask: "(1 :: 'a::len word) = mask 1"
  and fifteen_mask: "(15 :: 'a::len word) = mask 4"
  by (simp_all add: mask_eq_exp_minus_1)

lemma uint_promote: "uint (ucast (b :: uchar) :: c_int) = uint b"
  by (simp add: uint_up_ucast is_up)

lemma uint_byte_lt: "uint (b :: uchar) < 256"
  using uint_bounded [of b] by simp

lemma sint_small:
  assumes "uint (w :: c_int) < 2 ^ 31"
  shows "sint w = uint w"
proof -
  have "- (2 ^ 31) \<le> uint w"
    by (rule order_trans [of _ 0]) simp_all
  then have "signed_take_bit 31 (uint w) = uint w"
    using assms by (rule signed_take_bit_int_eq_self)
  then show ?thesis by (simp add: sint_uint)
qed

lemma uint_shift: "uint (drop_bit n (ucast (b :: uchar) :: c_int)) = uint b div 2 ^ n"
proof -
  have "uint (drop_bit n (ucast b :: c_int)) = drop_bit n (take_bit 32 (uint (ucast b :: c_int)))"
    by (simp only: unsigned_drop_bit_eq) simp
  also have "take_bit 32 (uint (ucast b :: c_int)) = uint b"
    using uint_byte_lt [of b] by (simp add: uint_promote take_bit_int_eq_self)
  finally show ?thesis by (simp add: drop_bit_eq_div)
qed

lemma uint_and_low:
  assumes "n \<le> LENGTH('a)"
  shows "uint ((w :: 'a::len word) AND mask n) = uint w mod 2 ^ n"
proof -
  from assms have "uint (w AND mask n) = uint w AND mask n"
    by (simp only: uint_and uint_mask_eq) (simp add: min_def)
  then show ?thesis by (simp only: flip: take_bit_eq_mask take_bit_eq_mod)
qed

section \<open>The fields of a parsed byte\<close>

lemma gender_val: "sint (gender (parseByte b)) = uint b div 128"
proof -
  have "uint (gender (parseByte b)) = uint b div 128"
    using uint_shift [of 7 b] by (simp add: parseByte_def)
  moreover have "uint b div 128 < 2 ^ 31"
    using uint_byte_lt [of b] by simp
  ultimately show ?thesis by (simp add: sint_small)
qed

lemma version_val: "sint (version (parseByte b)) = uint b div 32 mod 4"
proof -
  have "uint (version (parseByte b)) = uint b div 32 mod 4"
    using uint_and_low [of 2 "drop_bit 5 (ucast b :: c_int)"] uint_shift [of 5 b]
    by (simp add: parseByte_def three_mask)
  moreover have "uint b div 32 mod 4 < 2 ^ 31"
    by (rule less_trans [of _ 4]) simp_all
  ultimately show ?thesis by (simp add: sint_small)
qed

lemma active_val: "sint (active (parseByte b)) = uint b div 16 mod 2"
proof -
  have "uint (active (parseByte b)) = uint b div 16 mod 2"
    using uint_and_low [of 1 "drop_bit 4 (ucast b :: c_int)"] uint_shift [of 4 b]
    by (simp add: parseByte_def)
  moreover have "uint b div 16 mod 2 < 2 ^ 31"
    by (rule less_trans [of _ 2]) simp_all
  ultimately show ?thesis by (simp add: sint_small)
qed

lemma gigahertz_val: "sint (gigahertz (parseByte b)) = uint b mod 16"
proof -
  have "uint (gigahertz (parseByte b)) = uint b mod 16"
    using uint_and_low [of 4 "ucast b :: c_int"]
    by (simp add: parseByte_def fifteen_mask uint_promote)
  moreover have "uint b mod 16 < 2 ^ 31"
    by (rule less_trans [of _ 16]) simp_all
  ultimately show ?thesis by (simp add: sint_small)
qed

lemma gender_bit: "gender (parseByte b) = of_bool (bit b 7)"
proof -
  have "drop_bit 7 (ucast b :: c_int) = of_bool (bit b 7)"
  proof (rule bit_word_eqI)
    fix n assume "n < LENGTH(32)"
    then show "bit (drop_bit 7 (ucast b :: c_int)) n = bit (of_bool (bit b 7) :: c_int) n"
      by (cases "n = 0") (auto simp: bit_simps dest: bit_imp_le_length)
  qed
  then show ?thesis by (simp add: parseByte_def)
qed

lemma reassemble:
  "push_bit 7 (gender (parseByte b)) OR push_bit 5 (version (parseByte b))
     OR push_bit 4 (active (parseByte b)) OR gigahertz (parseByte b) = ucast b"
  unfolding parseByte_def
  apply (simp add: three_mask fifteen_mask one_mask del: mask_Suc_0)
  apply (rule bit_word_eqI)
  subgoal for n
    apply (cases "n < 4"; cases "n = 4"; cases "n < 7")
    apply (auto simp: bit_simps simp del: mask_Suc_0)
    done
  done

section \<open>The mask of getRobotGender\<close>

lemma mask_signed: "(scast (0x80 :: uchar) :: c_int) = NOT (mask 7)"
  by (simp add: mask_eq_exp_minus_1)

lemma mask_unsigned: "(ucast (0x80 :: uchar) :: c_int) = 2 ^ 7"
  by simp

lemma and_high_signed:
  "(ucast (ucast (b :: uchar) AND (NOT (mask 7) :: c_int)) :: uchar) = push_bit 7 (of_bool (bit b 7))"
proof (rule bit_word_eqI)
  fix n assume "n < LENGTH(8)"
  then show "bit (ucast (ucast b AND (NOT (mask 7) :: c_int)) :: uchar) n
      = bit (push_bit 7 (of_bool (bit b 7)) :: uchar) n"
    by (cases "n = 7") (auto simp: bit_simps dest: bit_imp_le_length)
qed

lemma and_high_unsigned:
  "(ucast (ucast (b :: uchar) AND (2 ^ k :: c_int)) :: uchar) = push_bit k (of_bool (bit b k))"
proof (rule bit_word_eqI)
  fix n assume "n < LENGTH(8)"
  then show "bit (ucast (ucast b AND (2 ^ k :: c_int)) :: uchar) n
      = bit (push_bit k (of_bool (bit b k)) :: uchar) n"
    by (cases "n = k") (auto simp: bit_simps dest: bit_imp_le_length)
qed

lemma res_eq:
  "(ucast (ucast (b :: uchar) AND (if cs then scast (0x80 :: uchar) else ucast (0x80 :: uchar) :: c_int)) :: uchar)
     = push_bit 7 (of_bool (bit b 7))"
proof (cases cs)
  case True
  with and_high_signed [of b] show ?thesis by (simp only: mask_signed if_True)
next
  case False
  with and_high_unsigned [of b 7] show ?thesis by (simp only: mask_unsigned if_False)
qed

lemma ucast_byte_inj: "(ucast (a :: uchar) :: c_int) = ucast b \<Longrightarrow> a = b"
  by (simp add: word_uint_eq_iff uint_promote)

lemma main_asserts_hold: "main_asserts"
  by (simp add: main_asserts_def parseByte_def)

section \<open>What parseByte extracts\<close>

text \<open>
  Claim C1, as stated, asks for \<open>version = ((b >> 5) & 0b11) + 1\<close>, a value in 1..4. The
  byte 0 refutes it: parseByte stores the 2-bit code itself, which is 0 there.
\<close>

theorem parseByte_version_plus_one_counterexample:
  "version (parseByte 0) \<noteq> (drop_bit 5 (ucast (0 :: uchar)) AND 3) + 1
     \<and> sint (version (parseByte 0)) < 1"
  by (simp add: parseByte_def)

text \<open>
  Claim C1, amended: for every byte \<open>b\<close> the version field of \<open>parseByte b\<close> is the 2-bit
  field at bits 6-5 itself, \<open>(b >> 5) & 0b11\<close> with nothing added; its value is
  \<open>(b div 32) mod 4\<close> and lies in 0..3.
\<close>

theorem parseByte_version_raw_code:
  "version (parseByte b) = drop_bit 5 (ucast b) AND 3
     \<and> sint (version (parseByte b)) = uint b div 32 mod 4
     \<and> 0 \<le> sint (version (parseByte b)) \<and> sint (version (parseByte b)) \<le> 3"
proof -
  have shape: "version (parseByte b) = drop_bit 5 (ucast b) AND 3"
    by (simp add: parseByte_def)
  have "uint b div 32 mod 4 < 4" by simp
  then have upper: "sint (version (parseByte b)) \<le> 3"
    unfolding version_val by linarith
  have lower: "0 \<le> sint (version (parseByte b))"
    unfolding version_val by simp
  from shape version_val [of b] lower upper show ?thesis by blast
qed

text \<open>
  Claim C5: for every byte \<open>b\<close>, parseByte takes the gender as \<open>b >> 7\<close> with no mask, a
  value that is 0 or 1 (\<open>b div 128\<close>); the active flag as \<open>(b >> 4) & 1\<close>
  (\<open>(b div 16) mod 2\<close>); and the 4-bit code as \<open>b & 0b1111\<close> with no shift (\<open>b mod 16\<close>).
\<close>

theorem parseByte_fields_extracted:
  "gender (parseByte b) = drop_bit 7 (ucast b)
     \<and> (gender (parseByte b) = 0 \<or> gender (parseByte b) = 1)
     \<and> sint (gender (parseByte b)) = uint b div 128
     \<and> active (parseByte b) = drop_bit 4 (ucast b) AND 1
     \<and> sint (active (parseByte b)) = uint b div 16 mod 2
     \<and> gigahertz (parseByte b) = ucast b AND 15
     \<and> sint (gigahertz (parseByte b)) = uint b mod 16"
proof -
  have bool: "gender (parseByte b) = 0 \<or> gender (parseByte b) = 1"
    by (cases "bit b 7") (simp_all add: gender_bit)
  have shape: "gender (parseByte b) = drop_bit 7 (ucast b)"
    "active (parseByte b) = drop_bit 4 (ucast b) AND 1"
    "gigahertz (parseByte b) = ucast b AND 15"
    by (simp_all add: parseByte_def)
  from bool shape gender_val [of b] active_val [of b] gigahertz_val [of b]
  show ?thesis by blast
qed

text \<open>
  Claim C6, as stated, has every byte decode to a valid record, and a valid record has its
  version in 1..4. The byte 0x18, the third byte of main, refutes it: its record has
  gender 0, active 1 and code 8 within their domains, but version 0.
\<close>

theorem parseByte_valid_record_counterexample:
  "\<not> ((sint (gender (parseByte 0x18)) = 0 \<or> sint (gender (parseByte 0x18)) = 1)
       \<and> 1 \<le> sint (version (parseByte 0x18)) \<and> sint (version (parseByte 0x18)) \<le> 4
       \<and> (sint (active (parseByte 0x18)) = 0 \<or> sint (active (parseByte 0x18)) = 1)
       \<and> 0 \<le> sint (gigahertz (parseByte 0x18)) \<and> sint (gigahertz (parseByte 0x18)) \<le> 15)
     \<and> sint (version (parseByte 0x18)) = 0"
  by (simp add: parseByte_def)

text \<open>
  Claim C6, amended: parseByte is total and has no failure path. For every byte \<open>b\<close> it
  returns a record with all four fields set from \<open>b\<close> (gender \<open>b div 128\<close>, version
  \<open>(b div 32) mod 4\<close>, active \<open>(b div 16) mod 2\<close>, code \<open>b mod 16\<close>), with gender 0 or 1,
  active 0 or 1 and the code in 0..15; the version field is the 2-bit code in 0..3, so
  that the field raised by one, not the field itself, lies in the domain 1..4 of a
  version. The model has no error result because the C function has no error return, no
  assertion and no operation that can trap: every shift is by less than the width of
  int, on a value in 0..255.
\<close>

theorem parseByte_total:
  "\<exists>g v a c. parseByte b = \<lparr>gender = g, version = v, active = a, gigahertz = c\<rparr>
     \<and> sint g = uint b div 128 \<and> sint v = uint b div 32 mod 4
     \<and> sint a = uint b div 16 mod 2 \<and> sint c = uint b mod 16
     \<and> (sint g = 0 \<or> sint g = 1)
     \<and> 0 \<le> sint v \<and> sint v \<le> 3 \<and> 1 \<le> sint v + 1 \<and> sint v + 1 \<le> 4
     \<and> (sint a = 0 \<or> sint a = 1)
     \<and> 0 \<le> sint c \<and> sint c \<le> 15"
proof -
  have g: "sint (gender (parseByte b)) = 0 \<or> sint (gender (parseByte b)) = 1"
    by (cases "bit b 7") (simp_all add: gender_bit)
  have "uint b div 32 mod 4 < 4" by simp
  then have v: "0 \<le> sint (version (parseByte b)) \<and> sint (version (parseByte b)) \<le> 3
      \<and> 1 \<le> sint (version (parseByte b)) + 1 \<and> sint (version (parseByte b)) + 1 \<le> 4"
    by (simp add: version_val)
  have "uint b div 16 mod 2 < 2" by simp
  then have a: "sint (active (parseByte b)) = 0 \<or> sint (active (parseByte b)) = 1"
    unfolding active_val by linarith
  have "uint b mod 16 < 16" by simp
  then have c: "0 \<le> sint (gigahertz (parseByte b)) \<and> sint (gigahertz (parseByte b)) \<le> 15"
    by (simp add: gigahertz_val)
  have "parseByte b = \<lparr>gender = gender (parseByte b), version = version (parseByte b),
      active = active (parseByte b), gigahertz = gigahertz (parseByte b)\<rparr>"
    by simp
  with g v a c gender_val [of b] version_val [of b] active_val [of b] gigahertz_val [of b]
  show ?thesis by blast
qed

text \<open>
  Claim C9: the four fields of \<open>parseByte b\<close> keep all of \<open>b\<close>:
  \<open>(gender << 7) | (version << 5) | (active << 4) | gigahertz\<close> is \<open>b\<close> (compared as ints,
  \<open>b\<close> promoted), and so two bytes with the same record are the same byte.
\<close>

theorem parseByte_reassemble_injective:
  "push_bit 7 (gender (parseByte b)) OR push_bit 5 (version (parseByte b))
     OR push_bit 4 (active (parseByte b)) OR gigahertz (parseByte b) = ucast b
   \<and> ((parseByte a = parseByte b) = (a = b))"
proof -
  have "a = b" if "parseByte a = parseByte b"
  proof -
    have "(ucast a :: c_int) = ucast b"
      using reassemble [of a] reassemble [of b] that by simp
    then show ?thesis by (rule ucast_byte_inj)
  qed
  then have "(parseByte a = parseByte b) = (a = b)" by blast
  with reassemble [of b] show ?thesis by simp
qed

text \<open>
  Claim C10: the two ways of reading the gender agree. For every byte \<open>b\<close>, and whether
  plain char is signed or not, \<open>getRobotGender b\<close> returns the gender field of
  \<open>parseByte b\<close>: 1 when bit 7 of \<open>b\<close> is set and 0 when it is clear.
\<close>

theorem getRobotGender_agrees_parseByte:
  "getRobotGender char_signed b = gender (parseByte b)
     \<and> getRobotGender char_signed b = (if bit b 7 then 1 else 0)"
  unfolding getRobotGender_def Let_def res_eq gender_bit
  by (cases "bit b 7") simp_all

section \<open>The literal bytes of main\<close>

text \<open>
  Claim C3, as stated, has version 4 for the byte 0xFF and version 1 for the byte 0x92.
  parseByte gives neither.
\<close>

theorem parseByte_literal_version_counterexample:
  "sint (version (parseByte 0xFF)) \<noteq> 4 \<and> sint (version (parseByte 0x92)) \<noteq> 1"
  by (simp add: parseByte_def)

text \<open>
  Claim C3, amended: parseByte of 0xFF is gender 1 (male), version code 3, active 1, code
  15, and parseByte of 0x92 is gender 1, version code 0, active 1, code 2, as the
  assertions of main say. The record holds no resolved value; the table entries for
  these two records, at version code + 1 and the 4-bit code, are 235550 and 0.
\<close>

theorem parseByte_literal_cases:
  "parseByte 0xFF = \<lparr>gender = 1, version = 3, active = 1, gigahertz = 15\<rparr>
     \<and> parseByte 0x92 = \<lparr>gender = 1, version = 0, active = 1, gigahertz = 2\<rparr>
     \<and> resolve (sint (version (parseByte 0xFF)) + 1) (sint (gigahertz (parseByte 0xFF))) = Inr 235550
     \<and> resolve (sint (version (parseByte 0x92)) + 1) (sint (gigahertz (parseByte 0x92))) = Inr 0
     \<and> main_asserts"
  by (simp add: parseByte_def resolve_def lookupTable_def main_asserts_def)

section \<open>The table value of a parsed byte\<close>

text \<open>
  Claim C2, as stated, has the decoded record hold the table entry for its version and
  code. The record of parseByte has four fields, and the one named after the table's
  values, gigahertz, holds the 4-bit code: for the byte 0xFF it is 15, which is not the
  table entry of code 15, neither in the column of the stored version code 3 nor in the
  column of version 4.
\<close>

theorem parseByte_stores_raw_code_counterexample:
  "Inr (sint (gigahertz (parseByte 0xFF))) \<noteq> resolve (sint (version (parseByte 0xFF))) (uint ((0xFF :: uchar) AND 15))
     \<and> Inr (sint (gigahertz (parseByte 0xFF))) \<noteq> resolve (sint (version (parseByte 0xFF)) + 1) (uint ((0xFF :: uchar) AND 15))"
  by (simp add: parseByte_def resolve_def lookupTable_def)

text \<open>
  Claim C2, amended: parseByte looks nothing up. The gigahertz field of \<open>parseByte b\<close> is
  the low 4 bits of \<open>b\<close>; the table value is not stored but is a function of the
  record's version and gigahertz fields alone, defined for every byte: resolve at
  (version + 1, gigahertz) succeeds with the entry in row \<open>b mod 16\<close> and column
  \<open>(b div 32) mod 4\<close> (counted from 0) of the table.
\<close>

theorem resolve_of_parseByte:
  "sint (gigahertz (parseByte b)) = uint (b AND 15)
     \<and> resolve (sint (version (parseByte b)) + 1) (sint (gigahertz (parseByte b)))
         = Inr (lookupTable ! nat (uint b mod 16) ! nat (uint b div 32 mod 4))"
proof -
  have "uint (b AND 15) = uint b mod 16"
    using uint_and_low [of 4 b] by (simp add: fifteen_mask)
  moreover have "uint b div 32 mod 4 < 4" and "uint b mod 16 < 16" by simp_all
  then have "uint b div 32 mod 4 \<le> 3" and "uint b mod 16 \<le> 15" by linarith+
  then have "resolve (uint b div 32 mod 4 + 1) (uint b mod 16)
       = Inr (lookupTable ! nat (uint b mod 16) ! nat (uint b div 32 mod 4))"
    by (simp add: resolve_def)
  ultimately show ?thesis by (simp only: version_val gigahertz_val simp_thms)
qed

section \<open>The encoder of the specification\<close>

lemma word_of_sint: "sint (w :: c_int) = k \<Longrightarrow> w = word_of_int k"
  by auto

lemma sint_nonneg_uint: "0 \<le> sint (w :: c_int) \<Longrightarrow> uint w = sint w"
  using sint_less [of w] by (simp add: uint_sint take_bit_int_eq_self)

lemma small_mask:
  assumes "0 \<le> sint (w :: c_int)" and "sint w < 2 ^ n"
  shows "w AND mask n = w"
  using assms by (simp add: mask_eq_iff sint_nonneg_uint)

lemma flag_cases:
  assumes "sint (w :: c_int) = 0 \<or> sint w = 1"
  shows "\<exists>p. w = of_bool p \<and> 1 - w = of_bool (\<not> p)"
proof -
  from assms have "w = 0 \<or> w = 1" by (auto dest!: word_of_sint)
  then show ?thesis
  proof
    assume "w = 0"
    then have "w = of_bool False \<and> 1 - w = of_bool (\<not> False)" by simp
    then show ?thesis ..
  next
    assume "w = 1"
    then have "w = of_bool True \<and> 1 - w = of_bool (\<not> True)" by simp
    then show ?thesis ..
  qed
qed

lemma version_code_cases:
  assumes "1 \<le> sint (v :: c_int)" and "sint v \<le> 4"
  shows "(v - 1) AND mask 2 = v - 1"
proof -
  from assms have "sint v = 1 \<or> sint v = 2 \<or> sint v = 3 \<or> sint v = 4" by linarith
  then have "v = 1 \<or> v = 2 \<or> v = 3 \<or> v = 4" by (auto dest!: word_of_sint)
  then show ?thesis by (auto simp: mask_eq_exp_minus_1)
qed

lemma flip_active_bits:
  "(ucast (push_bit 7 (g :: c_int) OR push_bit 5 v OR push_bit k (of_bool p) OR (c AND mask k)) :: uchar) XOR 2 ^ k
     = ucast (push_bit 7 g OR push_bit 5 v OR push_bit k (of_bool (\<not> p)) OR (c AND mask k))"
  if "k < 5"
proof (rule bit_word_eqI)
  fix n assume "n < LENGTH(8)"
  with that show "bit ((ucast (push_bit 7 g OR push_bit 5 v OR push_bit k (of_bool p) OR (c AND mask k)) :: uchar) XOR 2 ^ k) n
     = bit (ucast (push_bit 7 g OR push_bit 5 v OR push_bit k (of_bool (\<not> p)) OR (c AND mask k)) :: uchar) n"
    by (cases "n = k") (auto simp: bit_simps)
qed

lemma flip_gender_bits:
  "(ucast (push_bit k (of_bool p :: c_int) OR push_bit 5 (v AND mask 2) OR push_bit 4 (of_bool q) OR (c AND mask 4)) :: uchar) XOR 2 ^ k
     = ucast (push_bit k (of_bool (\<not> p) :: c_int) OR push_bit 5 (v AND mask 2) OR push_bit 4 (of_bool q) OR (c AND mask 4))"
  if "6 < k"
proof (rule bit_word_eqI)
  fix n assume "n < LENGTH(8)"
  with that show "bit ((ucast (push_bit k (of_bool p :: c_int) OR push_bit 5 (v AND mask 2) OR push_bit 4 (of_bool q) OR (c AND mask 4)) :: uchar) XOR 2 ^ k) n
     = bit (ucast (push_bit k (of_bool (\<not> p) :: c_int) OR push_bit 5 (v AND mask 2) OR push_bit 4 (of_bool q) OR (c AND mask 4)) :: uchar) n"
    by (cases "n = k") (auto simp: bit_simps)
qed

lemma version_succ_val: "sint (version (parseByte b) + 1) = uint b div 32 mod 4 + 1"
proof -
  have lt: "uint b div 32 mod 4 < 4" by simp
  have u: "uint (version (parseByte b)) = uint b div 32 mod 4"
    using uint_and_low [of 2 "drop_bit 5 (ucast b :: c_int)"] uint_shift [of 5 b]
    by (simp add: parseByte_def three_mask)
  have "uint (version (parseByte b) + 1) = (uint b div 32 mod 4 + 1) mod 2 ^ 32"
    by (simp add: uint_word_ariths u)
  also have "\<dots> = uint b div 32 mod 4 + 1"
    using lt by (intro mod_pos_pos_trivial) simp_all
  finally have "uint (version (parseByte b) + 1) = uint b div 32 mod 4 + 1" .
  moreover have "uint b div 32 mod 4 + 1 < 2 ^ 31" using lt by simp
  ultimately show ?thesis by (simp add: sint_small)
qed

text \<open>
  Claim C7: encode fails with InvalidArgument exactly when a field of the record is outside
  its domain (version outside 1..4, the 4-bit code outside 0..15, gender outside {0,1},
  active outside {0,1}); InvalidArgument is its only failure, every other record is
  encoded; and a record with version 5, with code 16 or with gender 2 is rejected.
\<close>

theorem encode_rejects_iff_out_of_domain:
  "(encode r = Inl InvalidArgument)
      = (sint (version r) < 1 \<or> 4 < sint (version r)
         \<or> sint (gigahertz r) < 0 \<or> 15 < sint (gigahertz r)
         \<or> sint (gender r) < 0 \<or> 1 < sint (gender r)
         \<or> sint (active r) < 0 \<or> 1 < sint (active r))
   \<and> (encode r = Inl InvalidArgument \<or> (\<exists>y. encode r = Inr y))
   \<and> encode \<lparr>gender = 0, version = 5, active = 0, gigahertz = 0\<rparr> = Inl InvalidArgument
   \<and> encode \<lparr>gender = 0, version = 1, active = 0, gigahertz = 16\<rparr> = Inl InvalidArgument
   \<and> encode \<lparr>gender = 2, version = 1, active = 0, gigahertz = 0\<rparr> = Inl InvalidArgument"
proof -
  have iff: "(encode r = Inl InvalidArgument)
      = (sint (version r) < 1 \<or> 4 < sint (version r)
         \<or> sint (gigahertz r) < 0 \<or> 15 < sint (gigahertz r)
         \<or> sint (gender r) < 0 \<or> 1 < sint (gender r)
         \<or> sint (active r) < 0 \<or> 1 < sint (active r))"
    unfolding encode_def by (simp split: if_splits) linarith
  have only: "encode r = Inl InvalidArgument \<or> (\<exists>y. encode r = Inr y)"
    unfolding encode_def by simp
  have lits: "encode \<lparr>gender = 0, version = 5, active = 0, gigahertz = 0\<rparr> = Inl InvalidArgument"
    "encode \<lparr>gender = 0, version = 1, active = 0, gigahertz = 16\<rparr> = Inl InvalidArgument"
    "encode \<lparr>gender = 2, version = 1, active = 0, gigahertz = 0\<rparr> = Inl InvalidArgument"
    by (simp_all add: encode_def)
  from iff only lits show ?thesis by blast
qed

text \<open>
  Claim C8: for every record \<open>r\<close> that encode accepts, with byte \<open>y\<close>, flipping only the
  active field of \<open>r\<close> and encoding again gives \<open>y\<close> with bit 4 flipped and every other
  bit as it was (\<open>y XOR 0x10\<close>), and flipping only the gender field gives \<open>y\<close> with bit 7
  flipped and every other bit as it was (\<open>y XOR 0x80\<close>).
\<close>

theorem encode_flip_isolated:
  assumes "encode r = Inr y"
  shows "encode (r\<lparr>active := 1 - active r\<rparr>) = Inr (y XOR 0x10)
     \<and> encode (r\<lparr>gender := 1 - gender r\<rparr>) = Inr (y XOR 0x80)"
proof -
  from assms have dom: "1 \<le> sint (version r)" "sint (version r) \<le> 4"
    "0 \<le> sint (gigahertz r)" "sint (gigahertz r) \<le> 15"
    "sint (gender r) = 0 \<or> sint (gender r) = 1"
    "sint (active r) = 0 \<or> sint (active r) = 1"
    unfolding encode_def by (simp_all split: if_splits)
  from assms dom have y: "y = ucast (push_bit 7 (gender r) OR push_bit 5 (version r - 1)
                       OR push_bit 4 (active r) OR gigahertz r)"
    unfolding encode_def by simp
  have c: "gigahertz r = gigahertz r AND mask 4"
    using dom(3,4) by (intro small_mask [symmetric]) simp_all
  have v: "version r - 1 = (version r - 1) AND mask 2"
    using dom(1,2) by (rule version_code_cases [symmetric])
  from flag_cases [OF dom(6)] obtain p
    where a: "active r = of_bool p" and na: "1 - active r = of_bool (\<not> p)" by blast
  from flag_cases [OF dom(5)] obtain q
    where g: "gender r = of_bool q" and ng: "1 - gender r = of_bool (\<not> q)" by blast
  have a': "sint (1 - active r) = 0 \<or> sint (1 - active r) = 1"
    unfolding a na [unfolded a] by (cases p) simp_all
  have g': "sint (1 - gender r) = 0 \<or> sint (1 - gender r) = 1"
    unfolding g ng [unfolded g] by (cases q) simp_all
  have "encode (r\<lparr>active := 1 - active r\<rparr>)
      = Inr (ucast (push_bit 7 (gender r) OR push_bit 5 (version r - 1)
                       OR push_bit 4 (1 - active r) OR gigahertz r))"
    using dom a' by (simp add: encode_def)
  also have "ucast (push_bit 7 (gender r) OR push_bit 5 (version r - 1)
                       OR push_bit 4 (1 - active r) OR gigahertz r) = y XOR 2 ^ 4"
    unfolding y a na [unfolded a]
    by (subst (1 2) c) (rule flip_active_bits [symmetric], simp)
  finally have act: "encode (r\<lparr>active := 1 - active r\<rparr>) = Inr (y XOR 0x10)" by simp
  have "encode (r\<lparr>gender := 1 - gender r\<rparr>)
      = Inr (ucast (push_bit 7 (1 - gender r) OR push_bit 5 (version r - 1)
                       OR push_bit 4 (active r) OR gigahertz r))"
    using dom g' by (simp add: encode_def)
  also have "ucast (push_bit 7 (1 - gender r) OR push_bit 5 (version r - 1)
                       OR push_bit 4 (active r) OR gigahertz r) = y XOR 2 ^ 7"
    unfolding y g a ng [unfolded g]
    by (subst (1 2) c, subst (1 2) v) (rule flip_gender_bits [symmetric], simp)
  finally have gen: "encode (r\<lparr>gender := 1 - gender r\<rparr>) = Inr (y XOR 0x80)" by simp
  from act gen show ?thesis by blast
qed

text \<open>
  The record of male, version 4, active, code 15 encodes to 0xFF; with active cleared it
  encodes to 0xEF and with gender cleared to 0x7F.
\<close>

theorem encode_flip_isolated_witness:
  "encode \<lparr>gender = 1, version = 4, active = 1, gigahertz = 15\<rparr> = Inr 0xFF
     \<and> encode \<lparr>gender = 1, version = 4, active = 0, gigahertz = 15\<rparr> = Inr 0xEF
     \<and> encode \<lparr>gender = 0, version = 4, active = 1, gigahertz = 15\<rparr> = Inr 0x7F"
proof -
  have h: "encode \<lparr>gender = 1, version = 4, active = 1, gigahertz = 15\<rparr> = Inr 0xFF"
    by (simp add: encode_def)
  from encode_flip_isolated [OF h] h show ?thesis by simp
qed

text \<open>
  Claim C4, as stated, asks that encode give back \<open>b\<close> from the record decoded from \<open>b\<close>.
  parseByte stores the version code, which encode reads as a version: the byte 0xFF comes
  back as 0xDF, and the record of the byte 0 is rejected.
\<close>

theorem encode_parseByte_roundtrip_counterexample:
  "encode (parseByte 0xFF) = Inr 0xDF \<and> encode (parseByte 0xFF) \<noteq> Inr 0xFF
     \<and> encode (parseByte 0) = Inl InvalidArgument"
  by (simp add: encode_def parseByte_def)

text \<open>
  Claim C4, amended: for every byte \<open>b\<close>, encoding the record of \<open>parseByte b\<close> with its
  version field raised by one (the version that the stored code stands for) gives back
  \<open>b\<close> exactly.
\<close>

theorem encode_parseByte_version_plus_one:
  "encode (parseByte b \<lparr>version := version (parseByte b) + 1\<rparr>) = Inr b"
proof -
  let ?h = "parseByte b"
  have "uint b div 32 mod 4 < 4" by simp
  then have v: "1 \<le> sint (version ?h + 1) \<and> sint (version ?h + 1) \<le> 4"
    unfolding version_succ_val by simp
  have "uint b mod 16 < 16" by simp
  then have c: "0 \<le> sint (gigahertz ?h) \<and> sint (gigahertz ?h) \<le> 15"
    unfolding gigahertz_val by simp
  have g: "sint (gender ?h) = 0 \<or> sint (gender ?h) = 1"
    by (cases "bit b 7") (simp_all add: gender_bit)
  have "uint b div 16 mod 2 < 2" by simp
  then have a: "sint (active ?h) = 0 \<or> sint (active ?h) = 1"
    unfolding active_val by linarith
  have "encode (?h \<lparr>version := version ?h + 1\<rparr>)
      = Inr (ucast (push_bit 7 (gender ?h) OR push_bit 5 (version ?h)
                       OR push_bit 4 (active ?h) OR gigahertz ?h))"
    using v c g a by (simp add: encode_def)
  also have "\<dots> = Inr (ucast (ucast b :: c_int))"
    by (simp only: reassemble)
  also have "(ucast (ucast b :: c_int) :: uchar) = b"
    by (simp add: ucast_up_ucast_id is_up)
  finally show ?thesis .
qed

end
